theory Spec2Isabelle
  imports Main
begin

section \<open>Python values and list slicing\<close>

text \<open>
  The scalar values that reach the handlers from a decoded JSON body, as Python objects:
  \<open>None\<close>, booleans, (unbounded) integers and strings. Floating-point numbers and
  container-valued fields are left out of the model.
\<close>

datatype pyval = PNone | PBool bool | PInt int | PStr string

text \<open>
  Python's \<open>xs[start:end]\<close> with step 1: a negative bound counts from the end of the
  list, and both bounds are clamped into \<open>0 .. len(xs)\<close>; an empty range gives \<open>[]\<close>.
\<close>

definition slice_bound :: "nat \<Rightarrow> int \<Rightarrow> nat" where
  "slice_bound n i = (if i < 0 then nat (max (i + int n) 0) else min (nat i) n)"

definition py_slice :: "'a list \<Rightarrow> int \<Rightarrow> int \<Rightarrow> 'a list" where
  "py_slice xs start end =
     drop (slice_bound (length xs) start) (take (slice_bound (length xs) end) xs)"

section \<open>Requests\<close>

text \<open>
  A request carries its query string and its decoded JSON body. \<open>page_arg\<close> is the
  outcome of the typed lookup of the query argument \<open>page\<close> (conversion \<open>int\<close>) before
  any default is applied: \<open>None\<close> when the argument is absent or is not an integer.
  \<open>json\<close> is the body as a Python dict with scalar values.
\<close>

record request =
  page_arg :: "int option"
  json :: "(string \<times> pyval) list"

text \<open>\<open>request.args.get('page', 1, type=int)\<close>\<close>

definition args_get_page :: "request \<Rightarrow> int" where
  "args_get_page req = (case page_arg req of None \<Rightarrow> 1 | Some p \<Rightarrow> p)"

text \<open>\<open>d.get(k)\<close> on a dict: \<open>None\<close> at an absent key.\<close>

definition dict_get :: "(string \<times> pyval) list \<Rightarrow> string \<Rightarrow> pyval" where
  "dict_get d k = (case map_of d k of None \<Rightarrow> PNone | Some v \<Rightarrow> v)"

section \<open>Pagination\<close>

definition QUESTIONS_PER_PAGE :: int where
  "QUESTIONS_PER_PAGE = 10"

text \<open>
  \<open>paginate_questions(request, selection)\<close>. The rows are formatted by
  \<open>Question.format\<close>, which lives in the models module; it is the parameter \<open>format\<close>.
\<close>

definition paginate_questions :: "('q \<Rightarrow> 'j) \<Rightarrow> request \<Rightarrow> 'q list \<Rightarrow> 'j list" where
  "paginate_questions format req selection =
     (let page = args_get_page req;
          start = (page - 1) * QUESTIONS_PER_PAGE;
          end = start + QUESTIONS_PER_PAGE;
          questions = map format selection;
          current_questions = py_slice questions start end
      in current_questions)"

section \<open>The store\<close>

text \<open>
  Modelled from the spec: the models module (classes \<open>Question\<close> and \<open>Category\<close> with
  their \<open>insert\<close> and \<open>delete\<close> methods) and the relational store behind it are not
  part of the sources. A question has a store-assigned id, question text, answer text, a
  loosely typed category and a difficulty; the handlers pass the body's values through
  unchanged, so the four payload fields hold Python values. A category has an id and a
  display string. Each table is the list of its rows in storage order, and \<open>next_id\<close>
  is the sequence from which the store assigns question ids.
\<close>

record Question =
  qid :: int
  question :: pyval
  answer :: pyval
  category :: pyval
  difficulty :: pyval

record Category =
  cid :: int
  type :: string

record store =
  Question_table :: "Question list"
  Category_table :: "Category list"
  next_id :: int

text \<open>
  Modelled from the spec: \<open>Question.insert\<close> adds one row whose id the store assigns;
  \<open>Question.delete\<close> removes the row with the question's id.
\<close>

definition Question_insert :: "pyval \<Rightarrow> pyval \<Rightarrow> pyval \<Rightarrow> pyval \<Rightarrow> store \<Rightarrow> Question \<times> store" where
  "Question_insert q a c d s =
     (let row = \<lparr>qid = next_id s, question = q, answer = a, category = c, difficulty = d\<rparr>
      in (row, s\<lparr>Question_table := Question_table s @ [row], next_id := next_id s + 1\<rparr>))"

definition Question_delete :: "Question \<Rightarrow> store \<Rightarrow> store" where
  "Question_delete q s = s\<lparr>Question_table := filter (\<lambda>r. qid r \<noteq> qid q) (Question_table s)\<rparr>"

text \<open>Exceptions that escape a handler, and the query method \<open>one_or_none\<close>.\<close>

datatype exn = UnboundLocalError | MultipleResultsFound | IndexError

definition one_or_none :: "'a list \<Rightarrow> exn + 'a option" where
  "one_or_none rows =
     (case rows of [] \<Rightarrow> Inr None | [r] \<Rightarrow> Inr (Some r) | _ \<Rightarrow> Inl MultipleResultsFound)"

section \<open>Responses\<close>

text \<open>
  A JSON response is its status code and the dict handed to \<open>jsonify\<close>, as the list of
  its items. A handler ends with a response, with \<open>abort(code)\<close>, or with an exception
  that nothing catches (every handler re-raises what it catches).
\<close>

datatype 'j jsonval =
    JBool bool
  | JInt int
  | JStr string
  | JQuestion 'j
  | JQuestions "'j list"
  | JCategories "(int \<times> string) list"

datatype 'j outcome =
    Response nat "(string \<times> 'j jsonval) list"
  | Abort nat
  | Raised exn

text \<open>The status the client sees: an uncaught exception is an internal server error.\<close>

fun status_code :: "'j outcome \<Rightarrow> nat" where
  "status_code (Response c _) = c"
| "status_code (Abort c) = c"
| "status_code (Raised _) = 500"

text \<open>
  A dict comprehension \<open>{k: v for ...}\<close>: items in the order of first insertion, a
  repeated key overwriting its value in place.
\<close>

fun dict_set :: "('k \<times> 'v) list \<Rightarrow> 'k \<Rightarrow> 'v \<Rightarrow> ('k \<times> 'v) list" where
  "dict_set [] k v = [(k, v)]"
| "dict_set ((k', v') # d) k v =
     (if k' = k then (k, v) # d else (k', v') # dict_set d k v)"

definition categories_dict :: "Category list \<Rightarrow> (int \<times> string) list" where
  "categories_dict cs = foldl (\<lambda>d cate. dict_set d (cid cate) (type cate)) [] cs"

section \<open>Python operators used by the handlers\<close>



text \<open>\<open>str(i)\<close> for an integer, and \<open>str\<close> as an f-string applies it to a scalar.\<close>

function str_nat :: "nat \<Rightarrow> string" where
  "str_nat n =
     (if n < 10 then [''0123456789'' ! n]
      else str_nat (n div 10) @ [''0123456789'' ! (n mod 10)])"
  by pat_completeness auto
termination
  by (relation "measure id") auto

definition str_int :: "int \<Rightarrow> string" where
  "str_int i = (if i < 0 then CHR ''-'' # str_nat (nat (- i)) else str_nat (nat i))"

fun py_str :: "pyval \<Rightarrow> string" where
  "py_str PNone = ''None''"
| "py_str (PBool b) = (if b then ''True'' else ''False'')"
| "py_str (PInt i) = str_int i"
| "py_str (PStr s) = s"

text \<open>
  Objects as the validation of \<open>create_new_question\<close> sees them: scalars, the body
  dict and tuples. \<open>x or y\<close> is \<open>x\<close> when \<open>x\<close> is truthy and \<open>y\<close> otherwise.
  Object identity is not a function of the values; \<open>x is y\<close> is the interpreter's
  identity relation \<open>same_obj\<close>, which can only hold between objects of one type.
\<close>

datatype pyobj = Val pyval | Dict "(string \<times> pyval) list" | Tuple "pyobj list"

datatype pytype = NoneType | BoolType | IntType | StrType | DictType | TupleType

fun py_type :: "pyobj \<Rightarrow> pytype" where
  "py_type (Val PNone) = NoneType"
| "py_type (Val (PBool _)) = BoolType"
| "py_type (Val (PInt _)) = IntType"
| "py_type (Val (PStr _)) = StrType"
| "py_type (Dict _) = DictType"
| "py_type (Tuple _) = TupleType"

fun truthy :: "pyobj \<Rightarrow> bool" where
  "truthy (Val PNone) = False"
| "truthy (Val (PBool b)) = b"
| "truthy (Val (PInt i)) = (i \<noteq> 0)"
| "truthy (Val (PStr s)) = (s \<noteq> [])"
| "truthy (Dict d) = (d \<noteq> [])"
| "truthy (Tuple xs) = (xs \<noteq> [])"

definition py_or :: "pyobj \<Rightarrow> pyobj \<Rightarrow> pyobj" where
  "py_or x y = (if truthy x then x else y)"

definition py_is :: "(pyobj \<Rightarrow> pyobj \<Rightarrow> bool) \<Rightarrow> pyobj \<Rightarrow> pyobj \<Rightarrow> bool" where
  "py_is same_obj x y = (py_type x = py_type y \<and> same_obj x y)"


section \<open>Case-insensitive pattern matching\<close>

text \<open>
  The store's \<open>ILIKE\<close>: in the pattern \<open>%\<close> matches any run of characters, \<open>_\<close> any
  one character, and a backslash makes the character after it literal; letters compare
  without case (ASCII letters here, strings being byte lists). A pattern that ends in a
  lone backslash matches nothing; the handler's patterns always end in \<open>%\<close>.
\<close>

definition lower :: "char \<Rightarrow> char" where
  "lower c =
     (case map_of (zip ''ABCDEFGHIJKLMNOPQRSTUVWXYZ'' ''abcdefghijklmnopqrstuvwxyz'') c of
        None \<Rightarrow> c
      | Some l \<Rightarrow> l)"

fun like_match :: "string \<Rightarrow> string \<Rightarrow> bool" where
  "like_match [] s = (s = [])"
| "like_match (p # ps) s =
     (if p = CHR ''%'' then
        like_match ps s \<or> (case s of [] \<Rightarrow> False | _ # cs \<Rightarrow> like_match (p # ps) cs)
      else if p = CHR ''_'' then
        (case s of [] \<Rightarrow> False | _ # cs \<Rightarrow> like_match ps cs)
      else if p = CHR 0x5C then
        (case ps of
           [] \<Rightarrow> False
         | e # ps' \<Rightarrow> (case s of [] \<Rightarrow> False | c # cs \<Rightarrow> c = e \<and> like_match ps' cs))
      else (case s of [] \<Rightarrow> False | c # cs \<Rightarrow> c = p \<and> like_match ps cs))"

definition ilike :: "pyval \<Rightarrow> string \<Rightarrow> bool" where
  "ilike column pattern =
     (case column of
        PStr text \<Rightarrow> like_match (map lower pattern) (map lower text)
      | _ \<Rightarrow> False)"

text \<open>What the search is documented to test: the term occurs in the text, case ignored.\<close>

fun is_prefix :: "string \<Rightarrow> string \<Rightarrow> bool" where
  "is_prefix [] s = True"
| "is_prefix (c # cs) [] = False"
| "is_prefix (c # cs) (d # ds) = (c = d \<and> is_prefix cs ds)"

fun is_substring :: "string \<Rightarrow> string \<Rightarrow> bool" where
  "is_substring t [] = (t = [])"
| "is_substring t (d # ds) = (is_prefix t (d # ds) \<or> is_substring t ds)"

definition contains_ci :: "string \<Rightarrow> string \<Rightarrow> bool" where
  "contains_ci term text = is_substring (map lower term) (map lower text)"

text \<open>Terms in which no character has a meaning of its own in a pattern.\<close>

definition plain :: "string \<Rightarrow> bool" where
  "plain t = list_all (\<lambda>c. c \<noteq> CHR ''%'' \<and> c \<noteq> CHR ''_'' \<and> c \<noteq> CHR 0x5C) t"

section \<open>Route handlers\<close>

text \<open>\<open>GET /categories\<close>\<close>

definition get_categories :: "store \<Rightarrow> 'j outcome" where
  "get_categories s =
     (let cats = sort_key cid (Category_table s)
      in if length cats = 0 then Abort 404
         else Response 200
                [(''success'', JBool True),
                 (''categories'', JCategories (categories_dict cats))])"

text \<open>\<open>GET /questions\<close>\<close>

definition get_questions :: "(Question \<Rightarrow> 'j) \<Rightarrow> store \<Rightarrow> request \<Rightarrow> 'j outcome" where
  "get_questions format s req =
     (let selection = sort_key qid (Question_table s);
          current_questions = paginate_questions format req selection
      in if current_questions = [] then Abort 404
         else Response 200
                [(''success'', JBool True),
                 (''questions'', JQuestions current_questions),
                 (''total_questions'', JInt (int (length selection))),
                 (''categories'', JCategories (categories_dict (Category_table s)))])"

text \<open>\<open>DELETE /questions/<int:id>\<close> (the path's \<open>id\<close> is \<open>ident\<close> here); the handler also
  leaves a new store behind.\<close>

definition delete_question :: "store \<Rightarrow> int \<Rightarrow> 'j outcome \<times> store" where
  "delete_question s ident =
     (case one_or_none (filter (\<lambda>q. qid q = ident) (Question_table s)) of
        Inl e \<Rightarrow> (Raised e, s)
      | Inr None \<Rightarrow> (Abort 404, s)
      | Inr (Some q) \<Rightarrow>
          (let s' = Question_delete q s
           in (Response 200
                 [(''success'', JBool True),
                  (''deleted'', JInt ident),
                  (''total_questions'', JInt (int (length (Question_table s'))))],
               s')))"

text \<open>\<open>POST /questions\<close>\<close>

definition validation_fails ::
  "(pyobj \<Rightarrow> pyobj \<Rightarrow> bool) \<Rightarrow> (string \<times> pyval) list \<Rightarrow> pyval \<Rightarrow> pyval \<Rightarrow> pyval \<Rightarrow> pyval \<Rightarrow> bool" where
  "validation_fails same_obj input new_question new_answer new_category new_difficulty =
     py_is same_obj
       (Tuple [Dict input, Val new_question, Val new_answer, Val new_category, Val new_difficulty])
       (py_or (Val PNone) (Val (PStr [])))"

definition create_new_question ::
  "(Question \<Rightarrow> 'j) \<Rightarrow> (pyobj \<Rightarrow> pyobj \<Rightarrow> bool) \<Rightarrow> store \<Rightarrow> request \<Rightarrow> 'j outcome \<times> store" where
  "create_new_question format same_obj s req =
     (let input = json req;
          new_question = dict_get input ''question'';
          new_answer = dict_get input ''answer'';
          new_category = dict_get input ''category'';
          new_difficulty = dict_get input ''difficulty''
      in if validation_fails same_obj input new_question new_answer new_category new_difficulty
         then (Abort 422, s)
         else (case Question_insert new_question new_answer new_category new_difficulty s of
                 (q, s') \<Rightarrow>
                   (let selection = sort_key qid (Question_table s');
                        current_questions = paginate_questions format req selection
                    in (Response 201
                          [(''success'', JBool True),
                           (''created'', JInt (qid q)),
                           (''questions'', JQuestions current_questions),
                           (''total_questions'', JInt (int (length selection)))],
                        s'))))"

text \<open>\<open>POST /questions/search\<close>\<close>

definition search_questions :: "(Question \<Rightarrow> 'j) \<Rightarrow> store \<Rightarrow> request \<Rightarrow> 'j outcome" where
  "search_questions format s req =
     (let body = json req;
          search_input = dict_get body ''searchTerm'';
          selection = filter (\<lambda>q. ilike (question q) (''%'' @ py_str search_input @ ''%''))
                        (Question_table s)
      in if length selection \<noteq> 0 then
           (let found = paginate_questions format req selection
            in Response 200
                 [(''success'', JBool True),
                  (''questions'', JQuestions found),
                  (''total_questions'', JInt (int (length found)))])
         else Abort 404)"



section \<open>A sample store\<close>

text \<open>Concrete data on which the handlers are run.\<close>

definition mk_question :: "int \<Rightarrow> string \<Rightarrow> string \<Rightarrow> Question" where
  "mk_question i text cat =
     \<lparr>qid = i, question = PStr text, answer = PStr ''42'', category = PStr cat,
      difficulty = PInt 1\<rparr>"

definition demo_store :: store where
  "demo_store =
     \<lparr>Question_table =
        [mk_question 3 ''What is a lemma?'' ''1'',
         mk_question 1 ''Who wrote it?'' ''2'',
         mk_question 2 ''what next'' ''1''],
      Category_table = [\<lparr>cid = 2, type = ''Art''\<rparr>, \<lparr>cid = 1, type = ''Science''\<rparr>],
      next_id = 4\<rparr>"

definition empty_store :: store where
  "empty_store = \<lparr>Question_table = [], Category_table = [], next_id = 1\<rparr>"


definition blank_body :: "(string \<times> pyval) list" where
  "blank_body =
     [(''question'', PStr []), (''answer'', PStr []),
      (''category'', PStr []), (''difficulty'', PStr [])]"



definition big_store :: store where
  "big_store =
     \<lparr>Question_table = map (\<lambda>i. mk_question i ''what'' ''1'') [1, 2, 3, 4, 5, 6, 7, 8, 9, 10, 11],
      Category_table = [\<lparr>cid = 1, type = ''Science''\<rparr>],
      next_id = 12\<rparr>"

definition search_what :: request where
  "search_what = \<lparr>page_arg = None, json = [(''searchTerm'', PStr ''WHAT'')]\<rparr>"

definition search_underscore :: request where
  "search_underscore = \<lparr>page_arg = None, json = [(''searchTerm'', PStr ''_'')]\<rparr>"

definition no_args :: request where
  "no_args = \<lparr>page_arg = None, json = []\<rparr>"

definition page_2 :: request where
  "page_2 = \<lparr>page_arg = Some 2, json = []\<rparr>"

section \<open>Facts about slicing\<close>

lemma py_slice_nonneg:
  "0 \<le> a \<Longrightarrow> a \<le> b \<Longrightarrow> py_slice xs a b = take (nat (b - a)) (drop (nat a) xs)"
proof -
  assume a: "0 \<le> a" and ab: "a \<le> b"
  have "py_slice xs a b = drop (min (nat a) (length xs)) (take (min (nat b) (length xs)) xs)"
    using a ab by (simp add: py_slice_def slice_bound_def)
  also have "\<dots> = drop (nat a) (take (nat b) xs)"
    by (simp add: min_def)
  also have "\<dots> = take (nat b - nat a) (drop (nat a) xs)"
    by (simp add: drop_take)
  also have "nat b - nat a = nat (b - a)"
    using a ab by simp
  finally show ?thesis .
qed

lemma py_slice_map: "py_slice (map f xs) a b = map f (py_slice xs a b)"
  by (simp add: py_slice_def drop_map take_map)

lemma length_py_slice_le:
  "b = a + 10 \<Longrightarrow> length (py_slice xs a b) \<le> 10"
  by (auto simp: py_slice_def slice_bound_def)

section \<open>Facts about the sample store\<close>

lemma qid_mk_question: "qid (mk_question i t c) = i"
  by (simp add: mk_question_def)

lemma demo_by_id:
  "sort_key qid (Question_table demo_store) =
     [mk_question 1 ''Who wrote it?'' ''2'', mk_question 2 ''what next'' ''1'',
      mk_question 3 ''What is a lemma?'' ''1'']"
  by (simp add: demo_store_def qid_mk_question)

section \<open>Pagination helper\<close>

text \<open>
  C1. For a result list \<open>L\<close> and the requested page \<open>P\<close> (1 when the request has no
  page argument), \<open>paginate_questions\<close> returns the Python slice
  \<open>[(P-1)*10 : P*10]\<close> of the formatted list. For \<open>P \<ge> 1\<close> that is the ten items from
  index \<open>(P-1)*10\<close> on, and nothing when that index is at or past the end of \<open>L\<close>.
  For \<open>P \<le> 0\<close> the start \<open>(P-1)*10\<close> is negative and nothing checks it: page 0 is
  empty, and a negative page is cut out counting from the end of the list.
\<close>

theorem paginate_questions_pages:
  "(let P = args_get_page req; fl = map format L; n = int (length L) in
      paginate_questions format req L = py_slice fl ((P - 1) * 10) (P * 10)
    \<and> (page_arg req = None \<longrightarrow> P = 1)
    \<and> (1 \<le> P \<longrightarrow> paginate_questions format req L = take 10 (drop (nat ((P - 1) * 10)) fl))
    \<and> (1 \<le> P \<and> n \<le> (P - 1) * 10 \<longrightarrow> paginate_questions format req L = [])
    \<and> (P \<le> 0 \<longrightarrow> (P - 1) * 10 < 0)
    \<and> (P = 0 \<longrightarrow> paginate_questions format req L = [])
    \<and> (P < 0 \<longrightarrow> paginate_questions format req L =
          drop (nat (max (n + (P - 1) * 10) 0)) (take (nat (max (n + P * 10) 0)) fl)))"
proof -
  define P where "P = args_get_page req"
  have eq: "paginate_questions format req L = py_slice (map format L) ((P - 1) * 10) (P * 10)"
    by (simp add: paginate_questions_def Let_def QUESTIONS_PER_PAGE_def P_def algebra_simps)
  have dflt: "page_arg req = None \<longrightarrow> P = 1"
    by (simp add: P_def args_get_page_def)
  have pos: "paginate_questions format req L = take 10 (drop (nat ((P - 1) * 10)) (map format L))"
    if "1 \<le> P"
  proof -
    have "py_slice (map format L) ((P - 1) * 10) (P * 10)
        = take (nat (P * 10 - (P - 1) * 10)) (drop (nat ((P - 1) * 10)) (map format L))"
      using that by (intro py_slice_nonneg) auto
    moreover have "nat (P * 10 - (P - 1) * 10) = 10" by (simp add: algebra_simps)
    ultimately show ?thesis using eq by simp
  qed
  have beyond: "paginate_questions format req L = []"
    if "1 \<le> P" "int (length L) \<le> (P - 1) * 10"
    using pos[OF that(1)] that(2) by simp
  have neg0: "P \<le> 0 \<longrightarrow> (P - 1) * 10 < 0" by simp
  have zero: "P = 0 \<longrightarrow> paginate_questions format req L = []"
    using eq by (simp add: py_slice_def slice_bound_def)
  have neg: "P < 0 \<longrightarrow> paginate_questions format req L =
          drop (nat (max (int (length L) + (P - 1) * 10) 0))
            (take (nat (max (int (length L) + P * 10) 0)) (map format L))"
    using eq by (simp add: py_slice_def slice_bound_def add.commute)
  show ?thesis
    unfolding Let_def P_def[symmetric]
    using eq dflt pos beyond neg0 zero neg by blast
qed

theorem paginate_questions_pages_witness:
  "paginate_questions (\<lambda>q. q) \<lparr>page_arg = None, json = []\<rparr> [1, 2, 3 :: int] = [1, 2, 3]
   \<and> paginate_questions (\<lambda>q. q) \<lparr>page_arg = Some 2, json = []\<rparr>
        [1, 2, 3, 4, 5, 6, 7, 8, 9, 10, 11, 12 :: int] = [11, 12]
   \<and> paginate_questions (\<lambda>q. q) \<lparr>page_arg = Some 3, json = []\<rparr>
        [1, 2, 3, 4, 5, 6, 7, 8, 9, 10, 11, 12 :: int] = []
   \<and> paginate_questions (\<lambda>q. q) \<lparr>page_arg = Some 0, json = []\<rparr> [1, 2, 3 :: int] = []
   \<and> paginate_questions (\<lambda>q. q) \<lparr>page_arg = Some (- 1), json = []\<rparr>
        [1, 2, 3, 4, 5, 6, 7, 8, 9, 10, 11, 12 :: int] = [1, 2]"
  using paginate_questions_pages [where format = "\<lambda>q. q" and req = "\<lparr>page_arg = None, json = []\<rparr>" and L = "[1, 2, 3 :: int]"]
    paginate_questions_pages [where format = "\<lambda>q. q" and req = "\<lparr>page_arg = Some 2, json = []\<rparr>"
      and L = "[1, 2, 3, 4, 5, 6, 7, 8, 9, 10, 11, 12 :: int]"]
    paginate_questions_pages [where format = "\<lambda>q. q" and req = "\<lparr>page_arg = Some 3, json = []\<rparr>"
      and L = "[1, 2, 3, 4, 5, 6, 7, 8, 9, 10, 11, 12 :: int]"]
    paginate_questions_pages [where format = "\<lambda>q. q" and req = "\<lparr>page_arg = Some 0, json = []\<rparr>" and L = "[1, 2, 3 :: int]"]
    paginate_questions_pages [where format = "\<lambda>q. q" and req = "\<lparr>page_arg = Some (- 1), json = []\<rparr>"
      and L = "[1, 2, 3, 4, 5, 6, 7, 8, 9, 10, 11, 12 :: int]"]
  by (simp add: args_get_page_def Let_def py_slice_def slice_bound_def)

lemma paginate_questions_slice:
  "paginate_questions format req L =
     map format (py_slice L ((args_get_page req - 1) * 10) (args_get_page req * 10))"
  by (simp add: paginate_questions_def Let_def QUESTIONS_PER_PAGE_def py_slice_map algebra_simps)

lemma sorted_py_slice: "sorted (map f xs) \<Longrightarrow> sorted (map f (py_slice xs a b))"
  by (simp add: sorted_map py_slice_def)

lemma set_py_slice: "set (py_slice xs a b) \<subseteq> set xs"
proof -
  have "set (py_slice xs a b) \<subseteq> set (take (slice_bound (length xs) b) xs)"
    unfolding py_slice_def by (rule set_drop_subset)
  also have "\<dots> \<subseteq> set xs" by (rule set_take_subset)
  finally show ?thesis .
qed

lemma py_slice_beyond: "0 \<le> a \<Longrightarrow> int (length xs) \<le> a \<Longrightarrow> py_slice xs a b = []"
  by (simp add: py_slice_def slice_bound_def)

section \<open>Question listing\<close>

text \<open>
  C2. \<open>GET /questions\<close>: when the requested page of the questions ordered by id is
  not empty, the response is a success whose \<open>questions\<close> are that page (in id
  order, at most ten, all of them rows of the store), whose \<open>total_questions\<close> is the
  number of all questions in the store, and which carries the category mapping. When
  the page is empty, in particular when it starts at or past the end of the data, the
  handler aborts with 404.
\<close>

theorem get_questions_page:
  "(let selection = sort_key qid (Question_table s);
        P = args_get_page req;
        page = py_slice selection ((P - 1) * 10) (P * 10)
    in (page \<noteq> [] \<longrightarrow>
          get_questions format s req =
            Response 200
              [(''success'', JBool True),
               (''questions'', JQuestions (map format page)),
               (''total_questions'', JInt (int (length (Question_table s)))),
               (''categories'', JCategories (categories_dict (Category_table s)))]
          \<and> sorted (map qid page) \<and> length page \<le> 10 \<and> set page \<subseteq> set (Question_table s))
     \<and> (page = [] \<longrightarrow> get_questions format s req = Abort 404)
     \<and> (1 \<le> P \<and> int (length (Question_table s)) \<le> (P - 1) * 10 \<longrightarrow>
          get_questions format s req = Abort 404))"
proof -
  define selection where "selection = sort_key qid (Question_table s)"
  define P where "P = args_get_page req"
  define page where "page = py_slice selection ((P - 1) * 10) (P * 10)"
  have pag: "paginate_questions format req selection = map format page"
    by (simp add: paginate_questions_slice page_def P_def)
  have lsel: "length selection = length (Question_table s)"
    by (simp add: selection_def)
  have ok: "get_questions format s req =
            Response 200
              [(''success'', JBool True),
               (''questions'', JQuestions (map format page)),
               (''total_questions'', JInt (int (length (Question_table s)))),
               (''categories'', JCategories (categories_dict (Category_table s)))]"
    if "page \<noteq> []"
    using that pag lsel by (simp add: get_questions_def Let_def selection_def[symmetric])
  have srt: "sorted (map qid page)"
    unfolding page_def selection_def by (rule sorted_py_slice) (rule sorted_sort_key)
  have len: "length page \<le> 10"
    unfolding page_def by (rule length_py_slice_le) (simp add: algebra_simps)
  have sub: "set page \<subseteq> set (Question_table s)"
    using set_py_slice[of selection "(P - 1) * 10" "P * 10"]
    by (simp add: page_def selection_def)
  have nf: "get_questions format s req = Abort 404" if "page = []"
    using that pag by (simp add: get_questions_def Let_def selection_def[symmetric])
  have beyond: "page = []" if "1 \<le> P" "int (length (Question_table s)) \<le> (P - 1) * 10"
    unfolding page_def using that by (intro py_slice_beyond) (auto simp: selection_def)
  show ?thesis
    unfolding Let_def selection_def[symmetric] P_def[symmetric] page_def[symmetric]
    using ok srt len sub nf beyond by blast
qed

theorem get_questions_page_witness:
  "py_slice (sort_key qid (Question_table demo_store)) 0 10 \<noteq> []
   \<and> get_questions qid demo_store no_args =
       Response 200
         [(''success'', JBool True),
          (''questions'', JQuestions [1, 2, 3]),
          (''total_questions'', JInt 3),
          (''categories'', JCategories (categories_dict (Category_table demo_store)))]
   \<and> py_slice (sort_key qid (Question_table demo_store)) 10 20 = []
   \<and> get_questions qid demo_store page_2 = Abort 404"
proof -
  have p1: "args_get_page no_args = 1" and p2: "args_get_page page_2 = 2"
    by (simp_all add: args_get_page_def no_args_def page_2_def)
  have s1: "py_slice (sort_key qid (Question_table demo_store)) 0 10 =
              [mk_question 1 ''Who wrote it?'' ''2'', mk_question 2 ''what next'' ''1'',
               mk_question 3 ''What is a lemma?'' ''1'']"
    by (simp add: demo_by_id py_slice_def slice_bound_def)
  have s2: "py_slice (sort_key qid (Question_table demo_store)) 10 20 = []"
    by (simp add: demo_by_id py_slice_def slice_bound_def)
  have len: "length (Question_table demo_store) = 3"
    by (simp add: demo_store_def)
  show ?thesis
    using get_questions_page [where format = qid and s = demo_store and req = no_args]
      get_questions_page [where format = qid and s = demo_store and req = page_2]
    by (simp add: Let_def p1 p2 s1 s2 len qid_mk_question)
qed

section \<open>Facts about dicts and unique keys\<close>

lemma dict_set_fresh: "k \<notin> fst ` set d \<Longrightarrow> dict_set d k v = d @ [(k, v)]"
  by (induction d) auto

lemma foldl_dict_set_distinct:
  "distinct (map cid cs) \<Longrightarrow> fst ` set d \<inter> cid ` set cs = {} \<Longrightarrow>
   foldl (\<lambda>d cate. dict_set d (cid cate) (type cate)) d cs = d @ map (\<lambda>c. (cid c, type c)) cs"
proof (induction cs arbitrary: d)
  case Nil
  then show ?case by simp
next
  case (Cons c cs)
  have fresh: "cid c \<notin> fst ` set d" using Cons.prems(2) by auto
  have "fst ` set (d @ [(cid c, type c)]) \<inter> cid ` set cs = {}"
    using Cons.prems by auto
  with Cons.IH[of "d @ [(cid c, type c)]"] Cons.prems(1) fresh
  show ?case by (simp add: dict_set_fresh)
qed

lemma categories_dict_distinct:
  "distinct (map cid cs) \<Longrightarrow> categories_dict cs = map (\<lambda>c. (cid c, type c)) cs"
  using foldl_dict_set_distinct[of cs "[]"] by (simp add: categories_dict_def)

lemma filter_key_single:
  "distinct (map f xs) \<Longrightarrow> x \<in> set xs \<Longrightarrow> filter (\<lambda>y. f y = f x) xs = [x]"
proof (induction xs)
  case Nil
  then show ?case by simp
next
  case (Cons a xs)
  show ?case
  proof (cases "a = x")
    case True
    have "f x \<notin> f ` set xs"
      using Cons.prems(1) True by simp
    then have "\<forall>y\<in>set xs. f y \<noteq> f x"
      by (metis imageI)
    then have "filter (\<lambda>y. f y = f x) xs = []"
      by (simp add: filter_empty_conv)
    with True show ?thesis by simp
  next
    case False
    with Cons.prems have "x \<in> set xs" by simp
    moreover from this Cons.prems(1) have "f a \<noteq> f x" by auto
    ultimately show ?thesis using Cons by simp
  qed
qed

section \<open>Category listing\<close>

text \<open>
  C9. \<open>GET /categories\<close>: with at least one category in the store the response is a
  success whose \<open>categories\<close> is the dict built from all categories in id order; with
  category ids unique (they are the table's key) this dict has one item per category,
  in id order, mapping the id to the display string, and nothing is paged. With no
  category the handler aborts with 404.
\<close>

theorem get_categories_all:
  "(Category_table s \<noteq> [] \<longrightarrow>
      get_categories s =
        Response 200
          [(''success'', JBool True),
           (''categories'', JCategories (categories_dict (sort_key cid (Category_table s))))])
   \<and> (distinct (map cid (Category_table s)) \<longrightarrow>
        categories_dict (sort_key cid (Category_table s)) =
          map (\<lambda>c. (cid c, type c)) (sort_key cid (Category_table s))
      \<and> sorted (map fst (categories_dict (sort_key cid (Category_table s))))
      \<and> length (categories_dict (sort_key cid (Category_table s))) = length (Category_table s)
      \<and> (\<forall>c \<in> set (Category_table s).
            map_of (categories_dict (sort_key cid (Category_table s))) (cid c) = Some (type c)))
   \<and> (Category_table s = [] \<longrightarrow> get_categories s = Abort 404)"
proof -
  define cats where "cats = sort_key cid (Category_table s)"
  have ok: "get_categories s =
        Response 200
          [(''success'', JBool True), (''categories'', JCategories (categories_dict cats))]"
    if "Category_table s \<noteq> []"
  proof -
    have "length cats \<noteq> 0" using that by (simp add: cats_def)
    then show ?thesis by (simp add: get_categories_def Let_def cats_def[symmetric])
  qed
  have none: "get_categories s = Abort 404" if "Category_table s = []"
    using that by (simp add: get_categories_def)
  have uniq: "categories_dict cats = map (\<lambda>c. (cid c, type c)) cats
      \<and> sorted (map fst (categories_dict cats))
      \<and> length (categories_dict cats) = length (Category_table s)
      \<and> (\<forall>c \<in> set (Category_table s). map_of (categories_dict cats) (cid c) = Some (type c))"
    if d: "distinct (map cid (Category_table s))"
  proof -
    have dc: "distinct (map cid cats)"
      unfolding cats_def using d by (simp add: distinct_map)
    have eq: "categories_dict cats = map (\<lambda>c. (cid c, type c)) cats"
      using dc by (rule categories_dict_distinct)
    have fsts: "map fst (categories_dict cats) = map cid cats"
      by (simp add: eq comp_def)
    have "sorted (map cid cats)"
      unfolding cats_def by (rule sorted_sort_key)
    then have srt: "sorted (map fst (categories_dict cats))"
      by (simp only: fsts)
    have "length cats = length (Category_table s)"
      by (simp add: cats_def)
    then have len: "length (categories_dict cats) = length (Category_table s)"
      by (simp add: eq)
    have look: "map_of (categories_dict cats) (cid c) = Some (type c)"
      if "c \<in> set (Category_table s)" for c
    proof -
      have "c \<in> set cats"
        using that by (simp add: cats_def)
      then have "(cid c, type c) \<in> set (categories_dict cats)"
        unfolding eq by (simp add: image_iff) blast
      moreover have "distinct (map fst (categories_dict cats))"
        using dc by (simp add: fsts)
      ultimately show ?thesis by (rule map_of_is_SomeI[rotated])
    qed
    show ?thesis using eq srt len look by blast
  qed
  show ?thesis
    unfolding cats_def[symmetric] using ok none uniq by blast
qed

theorem get_categories_all_witness:
  "Category_table demo_store \<noteq> []
   \<and> distinct (map cid (Category_table demo_store))
   \<and> get_categories demo_store =
       Response 200
         [(''success'', JBool True),
          (''categories'', JCategories [(1, ''Science''), (2, ''Art'')])]
   \<and> Category_table empty_store = []
   \<and> get_categories empty_store = Abort 404"
proof -
  have srt: "sort_key cid (Category_table demo_store) =
               [\<lparr>cid = 1, type = ''Science''\<rparr>, \<lparr>cid = 2, type = ''Art''\<rparr>]"
    by (simp add: demo_store_def)
  have ne: "Category_table demo_store \<noteq> []"
    and d: "distinct (map cid (Category_table demo_store))"
    by (simp_all add: demo_store_def)
  have e: "Category_table empty_store = []"
    by (simp add: empty_store_def)
  have r1: "get_categories demo_store =
        Response 200
          [(''success'', JBool True),
           (''categories'', JCategories (categories_dict (sort_key cid (Category_table demo_store))))]"
    using get_categories_all [where s = demo_store] ne by blast
  have r2: "categories_dict (sort_key cid (Category_table demo_store)) =
          map (\<lambda>c. (cid c, type c)) (sort_key cid (Category_table demo_store))"
    using get_categories_all [where s = demo_store] d by blast
  have r3: "get_categories empty_store = Abort 404"
    using get_categories_all [where s = empty_store] e by blast
  show ?thesis
    unfolding r1 r2 r3 by (simp add: ne d e srt)
qed

section \<open>Question deletion\<close>

text \<open>
  C7. \<open>DELETE /questions/{id}\<close>, question ids being unique: for the id of a question
  in the store the handler removes that question and no other (a later lookup of the id
  finds nothing, the table is one row shorter), and answers success with \<open>deleted\<close> the
  id and \<open>total_questions\<close> the number of questions left. For an id that no question
  has, it aborts with 404 and the store is as before.
\<close>

theorem delete_question_effect:
  "(distinct (map qid (Question_table s)) \<and> q \<in> set (Question_table s) \<longrightarrow>
      (let s' = s\<lparr>Question_table := filter (\<lambda>r. qid r \<noteq> qid q) (Question_table s)\<rparr>
       in delete_question s (qid q) =
            (Response 200
               [(''success'', JBool True),
                (''deleted'', JInt (qid q)),
                (''total_questions'', JInt (int (length (Question_table s'))))],
             s')
          \<and> one_or_none (filter (\<lambda>r. qid r = qid q) (Question_table s')) = Inr None
          \<and> q \<notin> set (Question_table s')
          \<and> length (Question_table s') + 1 = length (Question_table s)))
   \<and> (ident \<notin> qid ` set (Question_table s) \<longrightarrow>
        delete_question s ident = (Abort 404, s)
      \<and> status_code (fst (delete_question s ident)) = 404)"
proof -
  define s' where "s' = s\<lparr>Question_table := filter (\<lambda>r. qid r \<noteq> qid q) (Question_table s)\<rparr>"
  have tab: "Question_table s' = filter (\<lambda>r. qid r \<noteq> qid q) (Question_table s)"
    by (simp add: s'_def)
  have gone: "filter (\<lambda>r. qid r = qid q) (Question_table s') = []"
    by (simp add: tab filter_empty_conv)
  have look: "one_or_none (filter (\<lambda>r. qid r = qid q) (Question_table s')) = Inr None"
    by (simp add: gone one_or_none_def)
  have notin: "q \<notin> set (Question_table s')"
    by (simp add: tab)
  have present: "delete_question s (qid q) =
            (Response 200
               [(''success'', JBool True),
                (''deleted'', JInt (qid q)),
                (''total_questions'', JInt (int (length (Question_table s'))))],
             s')
          \<and> length (Question_table s') + 1 = length (Question_table s)"
    if d: "distinct (map qid (Question_table s))" and m: "q \<in> set (Question_table s)"
  proof -
    have one: "filter (\<lambda>r. qid r = qid q) (Question_table s) = [q]"
      using d m by (rule filter_key_single)
    have "length (filter (\<lambda>r. qid r = qid q) (Question_table s))
            + length (filter (\<lambda>r. \<not> qid r = qid q) (Question_table s))
          = length (Question_table s)"
      by (rule sum_length_filter_compl)
    then have len: "length (Question_table s') + 1 = length (Question_table s)"
      by (simp add: one tab)
    have "delete_question s (qid q) =
            (Response 200
               [(''success'', JBool True),
                (''deleted'', JInt (qid q)),
                (''total_questions'', JInt (int (length (Question_table s'))))],
             s')"
      by (simp add: delete_question_def one one_or_none_def Question_delete_def Let_def s'_def)
    with len show ?thesis by simp
  qed
  have absent: "delete_question s ident = (Abort 404, s)
      \<and> status_code (fst (delete_question s ident)) = 404"
    if "ident \<notin> qid ` set (Question_table s)"
  proof -
    have "\<forall>r\<in>set (Question_table s). qid r \<noteq> ident"
      using that by (metis imageI)
    then have "filter (\<lambda>r. qid r = ident) (Question_table s) = []"
      by (simp add: filter_empty_conv)
    then show ?thesis
      by (simp add: delete_question_def one_or_none_def)
  qed
  show ?thesis
    unfolding Let_def s'_def[symmetric]
    using look notin present absent by blast
qed

theorem delete_question_effect_witness:
  "distinct (map qid (Question_table demo_store))
   \<and> mk_question 1 ''Who wrote it?'' ''2'' \<in> set (Question_table demo_store)
   \<and> delete_question demo_store 1 =
       (Response 200
          [(''success'', JBool True), (''deleted'', JInt 1), (''total_questions'', JInt 2)],
        demo_store\<lparr>Question_table :=
          [mk_question 3 ''What is a lemma?'' ''1'', mk_question 2 ''what next'' ''1'']\<rparr>)
   \<and> 170 \<notin> qid ` set (Question_table demo_store)
   \<and> delete_question demo_store 170 = (Abort 404, demo_store)"
proof -
  have t: "Question_table demo_store =
        [mk_question 3 ''What is a lemma?'' ''1'',
         mk_question 1 ''Who wrote it?'' ''2'',
         mk_question 2 ''what next'' ''1'']"
    by (simp add: demo_store_def)
  have d: "distinct (map qid (Question_table demo_store))"
    and m: "mk_question 1 ''Who wrote it?'' ''2'' \<in> set (Question_table demo_store)"
    and a: "170 \<notin> qid ` set (Question_table demo_store)"
    by (simp_all add: t qid_mk_question)
  note T = delete_question_effect [where s = demo_store
        and q = "mk_question 1 ''Who wrote it?'' ''2''" and ident = 170, unfolded Let_def]
  have r1: "delete_question demo_store (qid (mk_question 1 ''Who wrote it?'' ''2'')) =
            (Response 200
               [(''success'', JBool True),
                (''deleted'', JInt (qid (mk_question 1 ''Who wrote it?'' ''2''))),
                (''total_questions'', JInt (int (length (Question_table
                   (demo_store\<lparr>Question_table :=
                      filter (\<lambda>r. qid r \<noteq> qid (mk_question 1 ''Who wrote it?'' ''2''))
                        (Question_table demo_store)\<rparr>)))))],
             demo_store\<lparr>Question_table :=
                      filter (\<lambda>r. qid r \<noteq> qid (mk_question 1 ''Who wrote it?'' ''2''))
                        (Question_table demo_store)\<rparr>)"
    using T d m by blast
  have r2: "delete_question demo_store 170 = (Abort 404, demo_store)"
    using T a by blast
  have f: "filter (\<lambda>r. qid r \<noteq> 1) (Question_table demo_store) =
        [mk_question 3 ''What is a lemma?'' ''1'', mk_question 2 ''what next'' ''1'']"
    by (simp add: t qid_mk_question)
  show ?thesis
    using r1 r2 d m a by (simp add: qid_mk_question f)
qed

section \<open>Question creation\<close>

lemma validation_never_fails:
  "\<not> validation_fails same_obj input new_question new_answer new_category new_difficulty"
  by (simp add: validation_fails_def py_is_def py_or_def)

lemma create_new_question_eq:
  "create_new_question format same_obj s req =
     (Response 201
        [(''success'', JBool True),
         (''created'', JInt (next_id s)),
         (''questions'', JQuestions (paginate_questions format req
            (sort_key qid (Question_table s @
               [\<lparr>qid = next_id s, question = dict_get (json req) ''question'',
                 answer = dict_get (json req) ''answer'',
                 category = dict_get (json req) ''category'',
                 difficulty = dict_get (json req) ''difficulty''\<rparr>])))),
         (''total_questions'', JInt (int (length (Question_table s)) + 1))],
      s\<lparr>Question_table := Question_table s @
               [\<lparr>qid = next_id s, question = dict_get (json req) ''question'',
                 answer = dict_get (json req) ''answer'',
                 category = dict_get (json req) ''category'',
                 difficulty = dict_get (json req) ''difficulty''\<rparr>],
         next_id := next_id s + 1\<rparr>)"
  by (simp add: create_new_question_def validation_never_fails Question_insert_def Let_def)


lemma create_new_question_blank:
  "Question_table (snd (create_new_question format (=) empty_store
      \<lparr>page_arg = None, json = blank_body\<rparr>)) =
     [\<lparr>qid = 1, question = PStr [], answer = PStr [], category = PStr [],
       difficulty = PStr []\<rparr>]"
  by (simp add: create_new_question_eq empty_store_def blank_body_def dict_get_def)

section \<open>Response of question creation\<close>







section \<open>Substring search\<close>

lemma length_paginate_questions_le: "length (paginate_questions format req L) \<le> 10"
  unfolding paginate_questions_slice
  by (simp add: length_py_slice_le algebra_simps)

lemma search_questions_eq:
  "search_questions format s req =
     (let matching = filter (\<lambda>q. ilike (question q)
                         (''%'' @ py_str (dict_get (json req) ''searchTerm'') @ ''%''))
                       (Question_table s)
      in if matching \<noteq> [] then
           Response 200
             [(''success'', JBool True),
              (''questions'', JQuestions (paginate_questions format req matching)),
              (''total_questions'', JInt (int (length (paginate_questions format req matching))))]
         else Abort 404)"
  by (simp add: search_questions_def Let_def)

lemma get_questions_total:
  "get_questions format s req = Response c body \<Longrightarrow>
   map_of body ''total_questions'' = Some (JInt (int (length (Question_table s))))"
  by (auto simp: get_questions_def Let_def split: if_splits)

text \<open>
  C10. Every success response of \<open>POST /questions/search\<close> has the form below:
  \<open>total_questions\<close> is the length of the returned page, hence at most 10, and it is
  less than the number of matching questions as soon as more than ten match. In a
  success response of \<open>GET /questions\<close>, \<open>total_questions\<close> is the number of all
  questions in the store.
\<close>

theorem search_questions_total_is_page_length:
  "(let matching = filter (\<lambda>q. ilike (question q)
                       (''%'' @ py_str (dict_get (json req) ''searchTerm'') @ ''%''))
                     (Question_table s);
        found = paginate_questions format req matching
    in (search_questions format s req = Response c body \<longrightarrow>
          c = 200
        \<and> body = [(''success'', JBool True),
                   (''questions'', JQuestions found),
                   (''total_questions'', JInt (int (length found)))]
        \<and> length found \<le> 10
        \<and> (10 < length matching \<longrightarrow> length found < length matching))
     \<and> (get_questions format s req = Response c' body' \<longrightarrow>
          map_of body' ''total_questions'' = Some (JInt (int (length (Question_table s))))))"
proof -
  define matching where "matching = filter (\<lambda>q. ilike (question q)
                       (''%'' @ py_str (dict_get (json req) ''searchTerm'') @ ''%''))
                     (Question_table s)"
  define found where "found = paginate_questions format req matching"
  have le: "length found \<le> 10"
    unfolding found_def by (rule length_paginate_questions_le)
  have form: "c = 200 \<and> body = [(''success'', JBool True),
                   (''questions'', JQuestions found),
                   (''total_questions'', JInt (int (length found)))]"
    if "search_questions format s req = Response c body"
    using that unfolding search_questions_eq Let_def matching_def[symmetric] found_def[symmetric]
    by (simp split: if_splits)
  have under: "length found < length matching" if "10 < length matching"
    using le that by simp
  show ?thesis
    unfolding Let_def matching_def[symmetric] found_def[symmetric]
    using le form under get_questions_total by blast
qed

lemma big_store_matching:
  "filter (\<lambda>q. ilike (question q) (''%'' @ py_str (PStr ''WHAT'') @ ''%''))
     (Question_table big_store) = Question_table big_store"
proof -
  have "ilike (PStr ''what'') (''%'' @ py_str (PStr ''WHAT'') @ ''%'')"
    by (simp add: ilike_def lower_def)
  then show ?thesis
    by (simp add: big_store_def mk_question_def)
qed

lemma big_store_first_page:
  "paginate_questions qid no_args (Question_table big_store) = [1, 2, 3, 4, 5, 6, 7, 8, 9, 10]"
  by (simp add: paginate_questions_slice args_get_page_def no_args_def py_slice_def
      slice_bound_def big_store_def qid_mk_question)

theorem search_questions_total_is_page_length_witness:
  "search_questions qid big_store search_what =
     Response 200
       [(''success'', JBool True),
        (''questions'', JQuestions [1, 2, 3, 4, 5, 6, 7, 8, 9, 10]),
        (''total_questions'', JInt 10)]
   \<and> length (filter (\<lambda>q. ilike (question q) (''%'' @ py_str (PStr ''WHAT'') @ ''%''))
               (Question_table big_store)) = 11
   \<and> get_questions qid big_store no_args =
     Response 200
       [(''success'', JBool True),
        (''questions'', JQuestions [1, 2, 3, 4, 5, 6, 7, 8, 9, 10]),
        (''total_questions'', JInt 11),
        (''categories'', JCategories [(1, ''Science'')])]"
proof -
  have tm: "dict_get (json search_what) ''searchTerm'' = PStr ''WHAT''"
    by (simp add: search_what_def dict_get_def)
  have pg: "paginate_questions qid search_what (Question_table big_store) =
              [1, 2, 3, 4, 5, 6, 7, 8, 9, 10]"
    by (simp add: paginate_questions_slice args_get_page_def search_what_def py_slice_def
      slice_bound_def big_store_def qid_mk_question)
  have len: "length (Question_table big_store) = 11"
    by (simp add: big_store_def)
  have ne: "Question_table big_store \<noteq> []"
    by (simp add: big_store_def)
  have srt: "sort_key qid (Question_table big_store) = Question_table big_store"
    by (simp add: big_store_def qid_mk_question)
  have s: "search_questions qid big_store search_what =
     Response 200
       [(''success'', JBool True),
        (''questions'', JQuestions [1, 2, 3, 4, 5, 6, 7, 8, 9, 10]),
        (''total_questions'', JInt 10)]"
    unfolding search_questions_eq tm big_store_matching Let_def pg
    using ne by simp
  have g: "get_questions qid big_store no_args =
     Response 200
       [(''success'', JBool True),
        (''questions'', JQuestions [1, 2, 3, 4, 5, 6, 7, 8, 9, 10]),
        (''total_questions'', JInt 11),
        (''categories'', JCategories [(1, ''Science'')])]"
    unfolding get_questions_def Let_def srt big_store_first_page
    by (simp add: len) (simp add: big_store_def categories_dict_def)
  note T = search_questions_total_is_page_length [where format = qid and s = big_store
      and req = search_what and c = 200 and c' = 200, unfolded Let_def tm big_store_matching pg]
  have ml: "length (filter (\<lambda>q. ilike (question q) (''%'' @ py_str (PStr ''WHAT'') @ ''%''))
               (Question_table big_store)) = 11"
    unfolding big_store_matching by (rule len)
  from T s have "length [1, 2, 3, 4, 5, 6, 7, 8, 9, 10 :: int] \<le> 10" by blast
  with s g ml show ?thesis
    by blast
qed

section \<open>Quiz selection\<close>




section \<open>Questions by category\<close>






section \<open>Search terms without pattern characters\<close>

lemma is_prefix_iff: "is_prefix t s \<longleftrightarrow> (\<exists>r. s = t @ r)"
  by (induction t s rule: is_prefix.induct) auto

lemma is_substring_iff: "is_substring t s \<longleftrightarrow> (\<exists>a r. s = a @ t @ r)"
proof (induction s)
  case Nil
  then show ?case by simp
next
  case (Cons d ds)
  have "(\<exists>a r. d # ds = a @ t @ r) \<longleftrightarrow> (\<exists>r. d # ds = t @ r) \<or> (\<exists>a r. ds = a @ t @ r)"
  proof
    assume "\<exists>a r. d # ds = a @ t @ r"
    then obtain a r where e: "d # ds = a @ t @ r" by blast
    show "(\<exists>r. d # ds = t @ r) \<or> (\<exists>a r. ds = a @ t @ r)"
    proof (cases a)
      case Nil
      with e show ?thesis by auto
    next
      case (Cons x a')
      with e have "ds = a' @ t @ r" by simp
      then show ?thesis by blast
    qed
  next
    assume "(\<exists>r. d # ds = t @ r) \<or> (\<exists>a r. ds = a @ t @ r)"
    then show "\<exists>a r. d # ds = a @ t @ r"
    proof
      assume "\<exists>r. d # ds = t @ r"
      then obtain r where "d # ds = [] @ t @ r" by auto
      then show ?thesis by blast
    next
      assume "\<exists>a r. ds = a @ t @ r"
      then obtain a r where "d # ds = (d # a) @ t @ r" by auto
      then show ?thesis by blast
    qed
  qed
  with Cons show ?case by (simp add: is_prefix_iff)
qed

lemma like_match_percent:
  "like_match (CHR ''%'' # ps) s \<longleftrightarrow> (\<exists>a b. s = a @ b \<and> like_match ps b)"
proof (induction s)
  case Nil
  then show ?case by simp
next
  case (Cons c cs)
  have "(\<exists>a b. c # cs = a @ b \<and> like_match ps b) \<longleftrightarrow>
        like_match ps (c # cs) \<or> (\<exists>a b. cs = a @ b \<and> like_match ps b)"
  proof
    assume "\<exists>a b. c # cs = a @ b \<and> like_match ps b"
    then obtain a b where e: "c # cs = a @ b" and l: "like_match ps b" by blast
    show "like_match ps (c # cs) \<or> (\<exists>a b. cs = a @ b \<and> like_match ps b)"
    proof (cases a)
      case Nil
      with e l show ?thesis by simp
    next
      case (Cons x a')
      with e have "cs = a' @ b" by simp
      with l show ?thesis by blast
    qed
  next
    assume "like_match ps (c # cs) \<or> (\<exists>a b. cs = a @ b \<and> like_match ps b)"
    then show "\<exists>a b. c # cs = a @ b \<and> like_match ps b"
    proof
      assume "like_match ps (c # cs)"
      then have "c # cs = [] @ (c # cs) \<and> like_match ps (c # cs)" by simp
      then show ?thesis by blast
    next
      assume "\<exists>a b. cs = a @ b \<and> like_match ps b"
      then obtain a b where "c # cs = (c # a) @ b \<and> like_match ps b" by auto
      then show ?thesis by blast
    qed
  qed
  with Cons show ?case by simp
qed

lemma like_match_literal:
  "plain t \<Longrightarrow> like_match (t @ ps) s \<longleftrightarrow> (\<exists>r. s = t @ r \<and> like_match ps r)"
proof (induction t arbitrary: s)
  case Nil
  then show ?case by simp
next
  case (Cons c t)
  then have c: "c \<noteq> CHR ''%''" "c \<noteq> CHR ''_''" "c \<noteq> CHR 0x5C" and p: "plain t"
    by (simp_all add: plain_def)
  show ?case
  proof (cases s)
    case Nil
    then show ?thesis using c by simp
  next
    case (Cons d ds)
    then show ?thesis using c Cons.IH[OF p, of ds] by auto
  qed
qed

lemma like_match_contains:
  "plain t \<Longrightarrow> like_match (''%'' @ t @ ''%'') s \<longleftrightarrow> is_substring t s"
proof -
  assume p: "plain t"
  have all: "like_match ''%'' r" for r
    using like_match_percent[of "[]" r] by auto
  have "like_match (''%'' @ t @ ''%'') s \<longleftrightarrow> (\<exists>a b. s = a @ b \<and> like_match (t @ ''%'') b)"
    using like_match_percent[of "t @ ''%''" s] by simp
  also have "\<dots> \<longleftrightarrow> (\<exists>a b. s = a @ b \<and> (\<exists>r. b = t @ r))"
    using like_match_literal[OF p, of "''%''"] all by simp
  also have "\<dots> \<longleftrightarrow> is_substring t s"
    unfolding is_substring_iff by auto
  finally show ?thesis .
qed

lemma lower_pattern_char:
  "lower c = CHR ''%'' \<longleftrightarrow> c = CHR ''%''"
  "lower c = CHR ''_'' \<longleftrightarrow> c = CHR ''_''"
  "lower c = CHR 0x5C \<longleftrightarrow> c = CHR 0x5C"
  by (auto simp: lower_def split: if_splits)

lemma plain_lower: "plain (map lower t) = plain t"
  by (induction t) (simp_all add: plain_def lower_pattern_char)

lemma ilike_plain_term:
  "plain t \<Longrightarrow> ilike (PStr text) (''%'' @ t @ ''%'') = contains_ci t text"
proof -
  assume "plain t"
  then have "plain (map lower t)" by (simp add: plain_lower)
  then have "like_match (''%'' @ map lower t @ ''%'') (map lower text)
             = is_substring (map lower t) (map lower text)"
    by (rule like_match_contains)
  moreover have "map lower (''%'' @ t @ ''%'') = ''%'' @ map lower t @ ''%''"
    by (simp add: lower_def)
  ultimately show ?thesis
    by (simp only: ilike_def contains_ci_def pyval.case)
qed

lemma ilike_column_plain_term:
  "plain t \<Longrightarrow>
   ilike column (''%'' @ t @ ''%'') =
     (case column of PStr text \<Rightarrow> contains_ci t text | _ \<Rightarrow> False)"
proof (cases column)
  case (PStr str)
  assume "plain t"
  then show ?thesis unfolding PStr by (simp only: ilike_plain_term pyval.case)
qed (simp_all only: ilike_def pyval.case)

text \<open>
  For a term that is a string free of \<open>%\<close>, \<open>_\<close> and backslash, and for a missing
  term (which is searched as the text \<open>None\<close>), the selection is the questions that
  contain the term, case ignored; an empty selection is the only way to 404.
\<close>

lemma search_questions_plain_term:
  assumes "py_str (dict_get (json req) ''searchTerm'') = t" and "plain t"
  shows "search_questions format s req =
     (let matching = filter (\<lambda>q. case question q of PStr text \<Rightarrow> contains_ci t text | _ \<Rightarrow> False)
                       (Question_table s)
      in if matching \<noteq> [] then
           Response 200
             [(''success'', JBool True),
              (''questions'', JQuestions (paginate_questions format req matching)),
              (''total_questions'', JInt (int (length (paginate_questions format req matching))))]
         else Abort 404)"
  unfolding search_questions_eq assms(1) ilike_column_plain_term[OF assms(2)] ..

lemma search_questions_missing_term:
  assumes "map_of (json req) ''searchTerm'' = None"
  shows "search_questions format s req =
     (let matching = filter (\<lambda>q. case question q of PStr text \<Rightarrow> contains_ci ''None'' text | _ \<Rightarrow> False)
                       (Question_table s)
      in if matching \<noteq> [] then
           Response 200
             [(''success'', JBool True),
              (''questions'', JQuestions (paginate_questions format req matching)),
              (''total_questions'', JInt (int (length (paginate_questions format req matching))))]
         else Abort 404)"
proof (rule search_questions_plain_term)
  show "py_str (dict_get (json req) ''searchTerm'') = ''None''"
    using assms by (simp add: dict_get_def)
  show "plain ''None''"
    by (simp add: plain_def)
qed

section \<open>Search terms with pattern characters\<close>

text \<open>
  C6. The search is documented to return the questions that contain the term, but the
  term goes into the \<open>ILIKE\<close> pattern unescaped. For the term \<open>_\<close> the pattern is
  \<open>%_%\<close>, which matches every non-empty text: on the sample store the handler answers
  success with all three questions, none of which contains an underscore.
\<close>

theorem search_questions_underscore:
  "search_questions qid demo_store search_underscore =
     Response 200
       [(''success'', JBool True),
        (''questions'', JQuestions [3, 1, 2]),
        (''total_questions'', JInt 3)]
   \<and> filter (\<lambda>q. case question q of PStr text \<Rightarrow> contains_ci ''_'' text | _ \<Rightarrow> False)
        (Question_table demo_store) = []"
proof -
  have tm: "dict_get (json search_underscore) ''searchTerm'' = PStr ''_''"
    by (simp add: search_underscore_def dict_get_def)
  have t: "Question_table demo_store =
        [mk_question 3 ''What is a lemma?'' ''1'',
         mk_question 1 ''Who wrote it?'' ''2'',
         mk_question 2 ''what next'' ''1'']"
    by (simp add: demo_store_def)
  have qt: "question (mk_question i x y) = PStr x" for i x y
    by (simp add: mk_question_def)
  have m: "filter (\<lambda>q. ilike (question q) (''%'' @ py_str (PStr ''_'') @ ''%''))
             (Question_table demo_store) = Question_table demo_store"
    by (simp add: t qt ilike_def lower_def)
  have pg: "paginate_questions qid search_underscore (Question_table demo_store) = [3, 1, 2]"
    by (simp add: paginate_questions_slice args_get_page_def search_underscore_def py_slice_def
        slice_bound_def t qid_mk_question)
  have ne: "Question_table demo_store \<noteq> []"
    by (simp add: t)
  have r: "search_questions qid demo_store search_underscore =
     Response 200
       [(''success'', JBool True),
        (''questions'', JQuestions [3, 1, 2]),
        (''total_questions'', JInt 3)]"
    unfolding search_questions_eq tm m Let_def pg using ne by simp
  have n: "filter (\<lambda>q. case question q of PStr text \<Rightarrow> contains_ci ''_'' text | _ \<Rightarrow> False)
        (Question_table demo_store) = []"
    by (simp add: t qt contains_ci_def lower_def)
  show ?thesis using r n by blast
qed

end
